theory Spec2Isabelle
  imports Complex_Main "HOL-Library.Log_Nat"
begin

section \<open>Numbers and instants\<close>

text \<open>
  A \<^verbatim>\<open>float64\<close> is modelled by the real number it denotes. Each arithmetic operation
  rounds its exact result to the nearest \<^verbatim>\<open>float64\<close>, ties to even, as IEEE 754 binary64
  does (53 significant bits, gradual underflow below \<open>2\<^sup>-\<^sup>1\<^sup>0\<^sup>2\<^sup>2\<close>); the build is for
  amd64, where the compiler fuses no operations. Infinities and NaN are outside the model:
  a result beyond the largest \<^verbatim>\<open>float64\<close> stays the rounded real. The conversion to
  \<^verbatim>\<open>int\<close> keeps the finite range of the 64-bit integer.

  A \<^verbatim>\<open>time.Time\<close> is modelled by its instant, in nanoseconds since the Unix epoch
  (UTC); the zone is an argument of the calendar functions that need one, as an offset in
  seconds east of UTC. A \<^verbatim>\<open>time.Duration\<close> is a number of nanoseconds.
\<close>

type_synonym Time = int
type_synonym Duration = int

text \<open>\<open>pow2 k\<close> is \<open>2\<^sup>k\<close> for an integer \<open>k\<close> of either sign.\<close>

definition pow2 :: "int \<Rightarrow> real" where
  "pow2 k = (if 0 \<le> k then 2 ^ nat k else 1 / 2 ^ nat (- k))"

text \<open>
  The binary exponent of a positive real \<open>x\<close>: the \<open>e\<close> with \<open>2\<^sup>e \<le> x < 2\<^sup>e\<^sup>+\<^sup>1\<close>, computed
  from the bit length of the integer part of \<open>x\<close>, or of \<open>1 / x\<close> when \<open>x < 1\<close>.
\<close>

definition binary_exponent :: "real \<Rightarrow> int" where
  "binary_exponent x =
     (if 1 \<le> x then bitlen \<lfloor>x\<rfloor> - 1 else - bitlen (\<lceil>1 / x\<rceil> - 1))"

definition round_half_even :: "real \<Rightarrow> int" where
  "round_half_even q =
     (let f = \<lfloor>q\<rfloor>; d = q - real_of_int f
      in if d < 1 / 2 then f else if 1 / 2 < d then f + 1 else if even f then f else f + 1)"

text \<open>
  Rounding to \<^verbatim>\<open>float64\<close>: the real is scaled by the unit in the last place of its
  binade (exponent at least -1022, 52 fraction bits) and rounded to an integer.
\<close>

definition round_f64 :: "real \<Rightarrow> real" where
  "round_f64 x =
     (if x = 0 then 0
      else (let e = max (binary_exponent \<bar>x\<bar>) (- 1022);
                ulp = pow2 (e - 52)
            in real_of_int (round_half_even (x / ulp)) * ulp))"

definition float64_sub :: "real \<Rightarrow> real \<Rightarrow> real" where
  "float64_sub x y = round_f64 (x - y)"

definition float64_mul :: "real \<Rightarrow> real \<Rightarrow> real" where
  "float64_mul x y = round_f64 (x * y)"

definition float64_quo :: "real \<Rightarrow> real \<Rightarrow> real" where
  "float64_quo x y = round_f64 (x / y)"

definition int64_min :: int where
  "int64_min = - (2 ^ 63)"

definition int64_max :: int where
  "int64_max = 2 ^ 63 - 1"

text \<open>
  Go's conversion \<^verbatim>\<open>int(x)\<close> of a \<^verbatim>\<open>float64\<close> discards the fraction (truncation
  towards zero). Where the truncated value does not fit the 64-bit \<^verbatim>\<open>int\<close> the language
  leaves the result to the implementation; the image is built with \<^verbatim>\<open>GOARCH=amd64\<close>
  (Dockerfile), whose conversion instruction then yields the smallest 64-bit integer.
\<close>

definition trunc_toward_zero :: "real \<Rightarrow> int" where
  "trunc_toward_zero x = (if 0 \<le> x then \<lfloor>x\<rfloor> else \<lceil>x\<rceil>)"

definition float64_to_int :: "real \<Rightarrow> int" where
  "float64_to_int x =
     (let t = trunc_toward_zero x
      in if int64_min \<le> t \<and> t \<le> int64_max then t else int64_min)"

definition int_to_float64 :: "int \<Rightarrow> real" where
  "int_to_float64 n = round_f64 (real_of_int n)"

section \<open>Package rates: the store\<close>

record RateData =
  BCV :: real
  Binance :: real
  Breach :: real
  UpdatedAt :: Time

text \<open>The mutex of the Go struct is not a field of the model: the model is sequential.\<close>

record RateStore =
  bcv :: real
  binance :: real
  bcvTime :: Time
  binTime :: Time

text \<open>
  The zero \<^verbatim>\<open>time.Time\<close> is January 1 of year 1, 00:00 UTC, that is 62135596800 seconds
  before the Unix epoch.
\<close>

definition zeroTime :: Time where
  "zeroTime = - 62135596800 * 1000000000"

definition NewRateStore :: RateStore where
  "NewRateStore = \<lparr>bcv = 0, binance = 0, bcvTime = zeroTime, binTime = zeroTime\<rparr>"

definition GetBCV :: "RateStore \<Rightarrow> real" where
  "GetBCV s = bcv s"

definition GetBinance :: "RateStore \<Rightarrow> real" where
  "GetBinance s = binance s"

text \<open>
  \<open>GetRateData_div quo\<close> is \<^verbatim>\<open>GetRateData\<close> with the quotient by \<^verbatim>\<open>s.bcv\<close> of the
  breach formula computed by \<open>quo\<close>; \<open>GetRateData\<close> is the source's function, where
  \<open>quo\<close> is the \<^verbatim>\<open>float64\<close> division. The final division by the constant 100 is not the
  one that the guard protects and stays as it is.
\<close>

definition GetRateData_div :: "(real \<Rightarrow> real \<Rightarrow> real) \<Rightarrow> RateStore \<Rightarrow> RateData" where
  "GetRateData_div quo s =
     (let breach = (if bcv s > 0
                    then float64_mul (quo (float64_sub (binance s) (bcv s)) (bcv s)) 100
                    else 0);
          updatedAt = (if binTime s > bcvTime s then binTime s else bcvTime s);
          breach = float64_quo (int_to_float64 (float64_to_int (float64_mul breach 100))) 100
      in \<lparr>BCV = bcv s, Binance = binance s, Breach = breach, UpdatedAt = updatedAt\<rparr>)"

definition GetRateData :: "RateStore \<Rightarrow> RateData" where
  "GetRateData s = GetRateData_div float64_quo s"

text \<open>
  Following the words of the specification: a number truncated (not rounded) to two
  decimal places keeps its sign and the digits up to the second decimal.
\<close>

definition truncated_2dp :: "real \<Rightarrow> real" where
  "truncated_2dp x = sgn x * real_of_int \<lfloor>\<bar>x\<bar> * 100\<rfloor> / 100"

definition breach_formula :: "real \<Rightarrow> real \<Rightarrow> real" where
  "breach_formula a b = ((b - a) / a) * 100"

section \<open>Package time, as far as the program uses it\<close>

text \<open>
  The calendar functions of \<^verbatim>\<open>time.Time\<close> read the instant in the zone of the value.
  \<open>off\<close> is the offset of that zone, in seconds east of UTC. Instants are unbounded
  in the model.
\<close>

datatype weekday = Sunday | Monday | Tuesday | Wednesday | Thursday | Friday | Saturday

definition Second_ns :: Duration where
  "Second_ns = 1000000000"

definition Minute_ns :: Duration where
  "Minute_ns = 60 * Second_ns"

definition Hour_ns :: Duration where
  "Hour_ns = 60 * Minute_ns"

definition localSeconds :: "int \<Rightarrow> Time \<Rightarrow> int" where
  "localSeconds off t = t div Second_ns + off"

text \<open>The civil date of an instant in a zone, as the number of days since 1970-01-01.\<close>

definition civilDay :: "int \<Rightarrow> Time \<Rightarrow> int" where
  "civilDay off t = localSeconds off t div 86400"

definition Hour :: "int \<Rightarrow> Time \<Rightarrow> int" where
  "Hour off t = (localSeconds off t mod 86400) div 3600"

definition Minute :: "int \<Rightarrow> Time \<Rightarrow> int" where
  "Minute off t = (localSeconds off t mod 3600) div 60"

definition Second :: "int \<Rightarrow> Time \<Rightarrow> int" where
  "Second off t = localSeconds off t mod 60"

text \<open>\<^verbatim>\<open>time.Weekday\<close> numbers the days from Sunday = 0; 1970-01-01 was a Thursday.\<close>

definition weekdayOfIndex :: "int \<Rightarrow> weekday" where
  "weekdayOfIndex i =
     (if i = 0 then Sunday else if i = 1 then Monday else if i = 2 then Tuesday
      else if i = 3 then Wednesday else if i = 4 then Thursday
      else if i = 5 then Friday else Saturday)"

definition Weekday :: "int \<Rightarrow> Time \<Rightarrow> weekday" where
  "Weekday off t = weekdayOfIndex ((civilDay off t + 4) mod 7)"

text \<open>
  \<^verbatim>\<open>time.Date(t.Year(), t.Month(), t.Day(), hour, min, sec, nsec, loc)\<close> for a \<open>t\<close> in
  the zone \<open>loc\<close>: the year, month and day of \<open>t\<close> name its civil date, and the result
  is the given wall-clock time on that date in that zone. The library's conversion between
  a civil date and its day number is not unfolded.
\<close>

definition DateOnDayOf :: "int \<Rightarrow> Time \<Rightarrow> int \<Rightarrow> int \<Rightarrow> int \<Rightarrow> int \<Rightarrow> Time" where
  "DateOnDayOf off t hour minute sec nsec =
     (civilDay off t * 86400 + hour * 3600 + minute * 60 + sec - off) * Second_ns + nsec"

definition After :: "Time \<Rightarrow> Time \<Rightarrow> bool" where
  "After t u = (t > u)"

definition Add :: "Time \<Rightarrow> Duration \<Rightarrow> Time" where
  "Add t d = t + d"

definition Sub :: "Time \<Rightarrow> Time \<Rightarrow> Duration" where
  "Sub t u = t - u"

section \<open>Package scheduler: the next run of the calendar job\<close>

text \<open>\<^verbatim>\<open>time.FixedZone("VET", -4*60*60)\<close>\<close>

definition loc_VET :: int where
  "loc_VET = - 4 * 60 * 60"

text \<open>
  The loop \<^verbatim>\<open>for next.Weekday() == time.Saturday || next.Weekday() == time.Sunday\<close>
  of \<^verbatim>\<open>nextBCVRunTime\<close>.
\<close>

function skipWeekend :: "Time \<Rightarrow> Time" where
  "skipWeekend next =
     (if Weekday loc_VET next = Saturday \<or> Weekday loc_VET next = Sunday
      then skipWeekend (Add next (24 * Hour_ns))
      else next)"
  by pat_completeness auto
termination
proof (relation "measure (\<lambda>t. nat ((8 - (civilDay loc_VET t + 4) mod 7) mod 7))")
  show "wf (measure (\<lambda>t. nat ((8 - (civilDay loc_VET t + 4) mod 7) mod 7)))"
    by simp
next
  fix t :: Time
  assume w: "Weekday loc_VET t = Saturday \<or> Weekday loc_VET t = Sunday"
  have step: "civilDay loc_VET (Add t (24 * Hour_ns)) = civilDay loc_VET t + 1"
    by (simp add: civilDay_def localSeconds_def Add_def Hour_ns_def Minute_ns_def
        Second_ns_def)
  define i where "i = (civilDay loc_VET t + 4) mod 7"
  have r: "0 \<le> i" "i < 7" by (simp_all add: i_def)
  have i: "i = 6 \<or> i = 0"
    using w r unfolding Weekday_def i_def [symmetric] weekdayOfIndex_def
    by (auto split: if_splits)
  have n: "(civilDay loc_VET t + 1 + 4) mod 7 = (i + 1) mod 7"
    unfolding i_def by (simp add: mod_simps algebra_simps)
  show "(Add t (24 * Hour_ns), t)
      \<in> measure (\<lambda>t. nat ((8 - (civilDay loc_VET t + 4) mod 7) mod 7))"
    using i unfolding in_measure step n i_def [symmetric] by auto
qed

declare skipWeekend.simps [simp del]

text \<open>\<open>now\<close> is the reading of \<^verbatim>\<open>time.Now()\<close>; the zone does not change the instant.\<close>

definition nextBCVRunTime :: "Time \<Rightarrow> Time" where
  "nextBCVRunTime now =
     (let targetHour = 11;
          targetMinute = 30;
          next = DateOnDayOf loc_VET now targetHour targetMinute 0 0;
          next = (if After now next then Add next (24 * Hour_ns) else next)
      in skipWeekend next)"

section \<open>The world outside the program\<close>

text \<open>
  The two scrapers and the clock are external. A \<open>World\<close> fixes what they answer: the
  outcome of the \<open>k\<close>-th call of each scraper's \<^verbatim>\<open>Fetch()\<close> (an error, or a rate with a
  nil error) and the \<open>k\<close>-th reading of \<^verbatim>\<open>time.Now()\<close>, counted from 0, together with
  the offset that the zone \<^verbatim>\<open>time.Local\<close> has at each instant. Nothing is assumed about
  these answers.

  A \<open>State\<close> is what the program changes: the store, how many answers it has consumed,
  and the trace of its external effects in the order they happen (each call of a scraper
  and each line written to the log).
\<close>

datatype error = FetchError string

datatype logmsg =
    BCVFetchErrorKeepingPrevious error
  | BCVRateUpdated real
  | BinanceFetchErrorKeepingPrevious error
  | BinanceRateUpdated real
  | InitializingRateData
  | InitialBinanceFetchFailed error
  | InitialBCVFetchFailed error
  | InitializationComplete
  | BCVDailyJobStarted
  | NextBCVScrapeScheduled Time Duration
  | BCVJobStopped
  | RunningBCVDailyScrape
  | BCVDailyScrapeFailed error
  | SkippingBCVScrapeWeekend

datatype event = BCVScraperFetch | BinanceFetcherFetch | LogLine logmsg

record World =
  bcvScraper :: "nat \<Rightarrow> error + real"
  binanceFetcher :: "nat \<Rightarrow> error + real"
  timeNow :: "nat \<Rightarrow> Time"
  Local :: "Time \<Rightarrow> int"

record State =
  store :: RateStore
  bcvFetches :: nat
  binanceFetches :: nat
  clockReads :: nat
  trace :: "event list"

definition time_Now :: "World \<Rightarrow> State \<Rightarrow> Time \<times> State" where
  "time_Now w st = (timeNow w (clockReads st), st\<lparr>clockReads := Suc (clockReads st)\<rparr>)"

definition log_Print :: "logmsg \<Rightarrow> State \<Rightarrow> State" where
  "log_Print m st = st\<lparr>trace := trace st @ [LogLine m]\<rparr>"

definition bcvScraper_Fetch :: "World \<Rightarrow> State \<Rightarrow> (error + real) \<times> State" where
  "bcvScraper_Fetch w st =
     (bcvScraper w (bcvFetches st),
      st\<lparr>bcvFetches := Suc (bcvFetches st), trace := trace st @ [BCVScraperFetch]\<rparr>)"

definition binanceFetcher_Fetch :: "World \<Rightarrow> State \<Rightarrow> (error + real) \<times> State" where
  "binanceFetcher_Fetch w st =
     (binanceFetcher w (binanceFetches st),
      st\<lparr>binanceFetches := Suc (binanceFetches st),
         trace := trace st @ [BinanceFetcherFetch]\<rparr>)"

section \<open>Package rates: writing the store, and the service\<close>

definition SetBCV :: "World \<Rightarrow> real \<Rightarrow> State \<Rightarrow> State" where
  "SetBCV w rate st =
     (let (now, st1) = time_Now w st
      in st1\<lparr>store := (store st1)\<lparr>bcv := rate, bcvTime := now\<rparr>\<rparr>)"

definition SetBinance :: "World \<Rightarrow> real \<Rightarrow> State \<Rightarrow> State" where
  "SetBinance w rate st =
     (let (now, st1) = time_Now w st
      in st1\<lparr>store := (store st1)\<lparr>binance := rate, binTime := now\<rparr>\<rparr>)"

text \<open>The returned \<^verbatim>\<open>error\<close> is \<open>None\<close> for nil.\<close>

definition FetchBCV :: "World \<Rightarrow> State \<Rightarrow> error option \<times> State" where
  "FetchBCV w st =
     (let (res, st1) = bcvScraper_Fetch w st
      in case res of
           Inl err \<Rightarrow> (Some err, log_Print (BCVFetchErrorKeepingPrevious err) st1)
         | Inr rate \<Rightarrow> (None, log_Print (BCVRateUpdated rate) (SetBCV w rate st1)))"

definition FetchBinance :: "World \<Rightarrow> State \<Rightarrow> error option \<times> State" where
  "FetchBinance w st =
     (let (res, st1) = binanceFetcher_Fetch w st
      in case res of
           Inl err \<Rightarrow> (Some err, log_Print (BinanceFetchErrorKeepingPrevious err) st1)
         | Inr rate \<Rightarrow> (None, log_Print (BinanceRateUpdated rate) (SetBinance w rate st1)))"

definition GetRates :: "State \<Rightarrow> RateData" where
  "GetRates st = GetRateData (store st)"

definition Initialize :: "World \<Rightarrow> State \<Rightarrow> State" where
  "Initialize w st =
     (let st1 = log_Print InitializingRateData st;
          (err, st2) = FetchBinance w st1;
          st3 = (case err of Some e \<Rightarrow> log_Print (InitialBinanceFetchFailed e) st2
                 | None \<Rightarrow> st2);
          (err, st4) = FetchBCV w st3;
          st5 = (case err of Some e \<Rightarrow> log_Print (InitialBCVFetchFailed e) st4
                 | None \<Rightarrow> st4)
      in log_Print InitializationComplete st5)"

text \<open>\<^verbatim>\<open>NewService\<close>: an empty store, no answer consumed, nothing done yet.\<close>

definition NewService :: State where
  "NewService =
     \<lparr>store = NewRateStore, bcvFetches = 0, binanceFetches = 0, clockReads = 0, trace = []\<rparr>"

text \<open>The calls of the scrapers in a trace, in order, without the log lines.\<close>

fun isFetch :: "event \<Rightarrow> bool" where
  "isFetch BCVScraperFetch = True"
| "isFetch BinanceFetcherFetch = True"
| "isFetch (LogLine m) = False"

definition fetches :: "event list \<Rightarrow> event list" where
  "fetches tr = filter isFetch tr"

section \<open>Package scheduler: the calendar job\<close>

text \<open>
  \<^verbatim>\<open>Start\<close> and \<^verbatim>\<open>Stop\<close>, the goroutines, the stop channel and the wait group are not
  modelled; the calendar job is modelled as the sequential program that its goroutine runs.
\<close>

text \<open>\<^verbatim>\<open>t.Weekday()\<close> for a \<open>t\<close> in the zone \<^verbatim>\<open>time.Local\<close>, as \<^verbatim>\<open>time.Now()\<close> is.\<close>

definition Weekday_Local :: "World \<Rightarrow> Time \<Rightarrow> weekday" where
  "Weekday_Local w t = Weekday (Local w t) t"

text \<open>\<^verbatim>\<open>isWeekday\<close> reads the clock.\<close>

definition isWeekday :: "World \<Rightarrow> State \<Rightarrow> bool \<times> State" where
  "isWeekday w st =
     (let (now, st1) = time_Now w st;
          weekday = Weekday_Local w now
      in (weekday \<noteq> Saturday \<and> weekday \<noteq> Sunday, st1))"

text \<open>
  The \<^verbatim>\<open>select\<close> of the loop waits for the stop channel and for the timer; which of the
  two cases runs is an input of the model.
\<close>

datatype selected = StopClosed | TimerFired

text \<open>
  One iteration of the \<^verbatim>\<open>for\<close> loop of \<^verbatim>\<open>bcvDailyJob\<close>. The method
  \<^verbatim>\<open>nextBCVRunTime\<close> reads the clock, \<^verbatim>\<open>time.Until\<close> reads it again (the
  saturation of a \<^verbatim>\<open>Duration\<close> at the ends of its 64-bit range is left out: the value
  is logged and handed to the timer only). The log line carries the arguments before their
  formatting. The result says whether the loop goes on
  (\<open>False\<close> is the \<^verbatim>\<open>return\<close>).
\<close>

definition bcvDailyJob_iteration :: "World \<Rightarrow> selected \<Rightarrow> State \<Rightarrow> bool \<times> State" where
  "bcvDailyJob_iteration w sel st =
     (let (now, st1) = time_Now w st;
          nextRun = nextBCVRunTime now;
          (now2, st2) = time_Now w st1;
          waitDuration = Sub nextRun now2;
          st3 = log_Print (NextBCVScrapeScheduled nextRun waitDuration) st2
      in case sel of
           StopClosed \<Rightarrow> (False, log_Print BCVJobStopped st3)
         | TimerFired \<Rightarrow>
             (let (weekday, st4) = isWeekday w st3
              in if weekday
                 then (let st5 = log_Print RunningBCVDailyScrape st4;
                           (err, st6) = FetchBCV w st5
                       in (True, (case err of
                                    Some e \<Rightarrow> log_Print (BCVDailyScrapeFailed e) st6
                                  | None \<Rightarrow> st6)))
                 else (True, log_Print SkippingBCVScrapeWeekend st4)))"

text \<open>
  The loop, run on the outcomes of its successive \<^verbatim>\<open>select\<close>s: it goes on until a
  \<^verbatim>\<open>select\<close> takes the stop case; a finite list of outcomes is a prefix of a run.
\<close>

fun bcvDailyJob_loop :: "World \<Rightarrow> selected list \<Rightarrow> State \<Rightarrow> State" where
  "bcvDailyJob_loop w [] st = st"
| "bcvDailyJob_loop w (sel # sels) st =
     (let (continue, st1) = bcvDailyJob_iteration w sel st
      in if continue then bcvDailyJob_loop w sels st1 else st1)"

definition bcvDailyJob :: "World \<Rightarrow> selected list \<Rightarrow> State \<Rightarrow> State" where
  "bcvDailyJob w sels st = bcvDailyJob_loop w sels (log_Print BCVDailyJobStarted st)"

section \<open>Stores, instants and worlds used as examples\<close>

text \<open>
  The values of the example response in the README, as the \<^verbatim>\<open>float64\<close> nearest to each;
  a store whose exact percentage is 115; a store whose percentage is beyond the 64-bit
  integers once scaled; a store with a negative BCV value.
\<close>

definition readme_store :: RateStore where
  "readme_store =
     \<lparr>bcv = round_f64 45.82, binance = round_f64 46.31, bcvTime = 0, binTime = 0\<rparr>"

definition rounding_store :: RateStore where
  "rounding_store = \<lparr>bcv = 100, binance = 215, bcvTime = 0, binTime = 0\<rparr>"

definition huge_store :: RateStore where
  "huge_store = \<lparr>bcv = 1, binance = 10 ^ 20, bcvTime = 0, binTime = 0\<rparr>"

definition negative_store :: RateStore where
  "negative_store = \<lparr>bcv = - 1, binance = 1, bcvTime = 0, binTime = 0\<rparr>"

text \<open>
  Two instants: 12:00 of Friday 1970-01-02 and 11:30 of Monday 1970-01-05, both in UTC-4.
\<close>

definition friday_noon :: Time where
  "friday_noon = 144000 * 1000000000"

definition monday_1130 :: Time where
  "monday_1130 = 401400 * 1000000000"

text \<open>
  A world where both scrapers fail at every call (with two of their own messages), whose
  clock starts at 11:30 of Monday 1970-01-05 in UTC-4 and advances by a second at each
  reading, and whose local zone is UTC; and a service that already holds the rates of
  the README.

  In \<open>drift_world\<close> the local zone is UTC, the BCV scraper answers 100, and the clock
  reads 09:00 of Friday 1970-01-02 in UTC-4 twice, then 21:00 of Sunday 1970-01-04 in
  UTC-4, which is 01:00 of Monday in UTC: the timer set for Friday 11:30 fires late.
\<close>

definition failing_world :: World where
  "failing_world =
     \<lparr>bcvScraper = (\<lambda>k. Inl (FetchError ''BCV: USD rate not found on page'')),
      binanceFetcher = (\<lambda>k. Inl (FetchError ''no valid prices found'')),
      timeNow = (\<lambda>k. monday_1130 + int k * Second_ns),
      Local = (\<lambda>t. 0)\<rparr>"

definition drift_world :: World where
  "drift_world =
     \<lparr>bcvScraper = (\<lambda>k. Inr 100),
      binanceFetcher = (\<lambda>k. Inr 215),
      timeNow = (\<lambda>k. if k < 2 then 133200 * Second_ns else 349200 * Second_ns),
      Local = (\<lambda>t. 0)\<rparr>"

definition running_service :: State where
  "running_service = NewService\<lparr>store := readme_store\<rparr>"

section \<open>Properties of the numbers\<close>

lemma trunc_toward_zero_sgn:
  "real_of_int (trunc_toward_zero y) = sgn y * real_of_int \<lfloor>\<bar>y\<bar>\<rfloor>"
proof (cases "0 \<le> y")
  case True
  then show ?thesis
    by (cases "y = 0") (simp_all add: trunc_toward_zero_def)
next
  case False
  then have neg: "y < 0" by simp
  have "\<lceil>y\<rceil> = - \<lfloor>- y\<rfloor>" by (simp add: ceiling_def)
  with neg show ?thesis
    by (simp add: trunc_toward_zero_def)
qed

lemma trunc_toward_zero_abs: "\<bar>trunc_toward_zero y\<bar> = \<lfloor>\<bar>y\<bar>\<rfloor>"
proof (cases "0 \<le> y")
  case True
  then show ?thesis by (simp add: trunc_toward_zero_def)
next
  case False
  then have neg: "y < 0" by simp
  have c: "\<lceil>y\<rceil> = - \<lfloor>- y\<rfloor>" by (simp add: ceiling_def)
  from neg have "\<lceil>y\<rceil> \<le> 0" by (simp add: ceiling_le_zero)
  with neg c show ?thesis by (simp add: trunc_toward_zero_def)
qed

lemma float64_to_int_in_range:
  assumes "\<bar>y\<bar> < 2 ^ 63"
  shows "float64_to_int y = trunc_toward_zero y"
proof -
  have "\<lfloor>\<bar>y\<bar>\<rfloor> < 2 ^ 63"
    using assms by (simp add: floor_less_iff)
  then have "\<bar>trunc_toward_zero y\<bar> < 2 ^ 63"
    by (simp add: trunc_toward_zero_abs)
  then have "int64_min \<le> trunc_toward_zero y \<and> trunc_toward_zero y \<le> int64_max"
    unfolding int64_min_def int64_max_def by linarith
  then show ?thesis
    by (simp add: float64_to_int_def Let_def)
qed

lemma float64_to_int_zero: "float64_to_int 0 = 0"
  by (simp add: float64_to_int_def trunc_toward_zero_def int64_min_def int64_max_def)

lemma truncated_2dp_trunc:
  "truncated_2dp x = real_of_int (trunc_toward_zero (x * 100)) / 100"
proof -
  have "sgn (x * 100) = sgn x" by (simp add: sgn_mult)
  moreover have "\<bar>x * 100\<bar> = \<bar>x\<bar> * 100" by (simp add: abs_mult)
  ultimately show ?thesis
    by (simp add: truncated_2dp_def trunc_toward_zero_sgn)
qed

lemma pow2_pos: "0 < pow2 k"
  by (simp add: pow2_def)

lemma pow2_powi: "pow2 k = 2 powi k"
  by (simp add: pow2_def power_int_def inverse_eq_divide power_one_over)

lemma pow2_mono: "j \<le> k \<Longrightarrow> pow2 j \<le> pow2 k"
  unfolding pow2_powi by (rule power_int_increasing) simp_all

lemma pow2_neg: "pow2 (- k) = 1 / pow2 k"
  unfolding pow2_powi by (rule power_int_minus_divide)

lemma bitlen_eqI:
  assumes "0 \<le> j" and "2 ^ nat j \<le> n" and "n < 2 ^ nat (j + 1)"
  shows "bitlen n = j + 1"
proof (rule antisym)
  show "bitlen n \<le> j + 1"
    using assms by (simp add: bitlen_le_iff_power)
  have "nat (j + 1) - 1 = nat j" using assms(1) by simp
  then show "j + 1 \<le> bitlen n"
    using assms by (simp add: bitlen_ge_iff_power)
qed

lemma binary_exponent_unique:
  assumes "pow2 k \<le> x" and "x < pow2 (k + 1)"
  shows "binary_exponent x = k"
proof (cases "1 \<le> x")
  case True
  have "pow2 0 < pow2 (k + 1)" using True assms(2) by (simp add: pow2_def)
  then have k: "0 \<le> k"
    using pow2_mono [of "k + 1" 0] by (cases "0 \<le> k") auto
  have lo: "(2::int) ^ nat k \<le> \<lfloor>x\<rfloor>"
  proof -
    have "real_of_int (2 ^ nat k) \<le> x" using assms(1) k by (simp add: pow2_def)
    then show ?thesis by (simp only: le_floor_iff)
  qed
  have hi: "\<lfloor>x\<rfloor> < (2::int) ^ nat (k + 1)"
  proof -
    have "x < real_of_int (2 ^ nat (k + 1))" using assms(2) k by (simp add: pow2_def)
    then show ?thesis by (simp only: floor_less_iff)
  qed
  from bitlen_eqI [OF k lo hi] True show ?thesis
    by (simp add: binary_exponent_def)
next
  case False
  have xpos: "0 < x" using assms(1) pow2_pos [of k] by linarith
  have "pow2 k < pow2 0" using False assms(1) by (simp add: pow2_def)
  then have k: "k < 0"
    using pow2_mono [of 0 k] by (cases "k < 0") auto
  define j where "j = - k - 1"
  have j: "0 \<le> j" using k by (simp add: j_def)
  have kj: "k = - (j + 1)" "k + 1 = - j" by (simp_all add: j_def)
  have y_hi: "1 / x \<le> pow2 (j + 1)"
  proof -
    have "pow2 k = 1 / pow2 (j + 1)" unfolding kj(1) by (rule pow2_neg)
    with assms(1) have "1 / pow2 (j + 1) \<le> x" by simp
    then have "1 \<le> x * pow2 (j + 1)"
      using pow2_pos [of "j + 1"] by (simp add: field_simps)
    then show ?thesis using xpos by (simp add: field_simps)
  qed
  have y_lo: "pow2 j < 1 / x"
  proof -
    have "pow2 (k + 1) = 1 / pow2 j" unfolding kj(2) by (rule pow2_neg)
    with assms(2) have "x < 1 / pow2 j" by simp
    then have "x * pow2 j < 1"
      using pow2_pos [of j] by (simp add: field_simps)
    then show ?thesis using xpos by (simp add: field_simps)
  qed
  have lo: "(2::int) ^ nat j \<le> \<lceil>1 / x\<rceil> - 1"
  proof -
    have "real_of_int (2 ^ nat j) < 1 / x" using y_lo j by (simp add: pow2_def)
    then have "2 ^ nat j < \<lceil>1 / x\<rceil>" by (simp only: less_ceiling_iff)
    then show ?thesis by simp
  qed
  have hi: "\<lceil>1 / x\<rceil> - 1 < (2::int) ^ nat (j + 1)"
  proof -
    have "1 / x \<le> real_of_int (2 ^ nat (j + 1))" using y_hi j by (simp add: pow2_def)
    then have "\<lceil>1 / x\<rceil> \<le> 2 ^ nat (j + 1)" by (simp only: ceiling_le_iff)
    then show ?thesis by simp
  qed
  from bitlen_eqI [OF j lo hi] False show ?thesis
    by (simp add: binary_exponent_def kj)
qed

lemma round_half_even_near:
  assumes "\<bar>q - real_of_int m\<bar> < 1 / 2 \<or> (\<bar>q - real_of_int m\<bar> = 1 / 2 \<and> even m)"
  shows "round_half_even q = m"
proof (cases "real_of_int m \<le> q")
  case True
  with assms have "\<lfloor>q\<rfloor> = m" by (intro floor_unique) auto
  with assms True show ?thesis by (auto simp add: round_half_even_def Let_def)
next
  case False
  with assms have f: "\<lfloor>q\<rfloor> = m - 1" by (intro floor_unique) auto
  from assms False have "1 / 2 < q - real_of_int (m - 1)
      \<or> (q - real_of_int (m - 1) = 1 / 2 \<and> odd (m - 1))"
    by auto
  with f show ?thesis by (auto simp add: round_half_even_def Let_def)
qed

lemma round_f64_certificate:
  assumes "pow2 e \<le> \<bar>x\<bar>" and "\<bar>x\<bar> < pow2 (e + 1)" and "- 1022 \<le> e"
    and "\<bar>x / pow2 (e - 52) - real_of_int m\<bar> < 1 / 2
         \<or> (\<bar>x / pow2 (e - 52) - real_of_int m\<bar> = 1 / 2 \<and> even m)"
  shows "round_f64 x = real_of_int m * pow2 (e - 52)"
proof -
  have nz: "x \<noteq> 0" using assms(1) pow2_pos [of e] by auto
  have "binary_exponent \<bar>x\<bar> = e"
    using assms(1,2) by (rule binary_exponent_unique)
  then have "max (binary_exponent \<bar>x\<bar>) (- 1022) = e" using assms(3) by simp
  with nz show ?thesis
    by (simp add: round_f64_def Let_def round_half_even_near [OF assms(4)])
qed

lemma round_f64_zero: "round_f64 0 = 0"
  by (simp add: round_f64_def)

lemma pow2_numeral:
  "pow2 0 = 1" "pow2 1 = 2" "pow2 (- 1) = 1 / 2"
  "pow2 (numeral n) = 2 ^ numeral n" "pow2 (- numeral n) = 1 / 2 ^ numeral n"
  by (simp_all add: pow2_def)

text \<open>The operations of \<open>GetRateData\<close> on the example stores, one rounding at a time.\<close>

lemma readme_bcv_f64: "round_f64 45.82 = 6448591716441129 / 2 ^ 47"
proof -
  have "round_f64 (45.82) = real_of_int (6448591716441129) * pow2 (5 - 52)"
    by (rule round_f64_certificate) (simp_all add: pow2_numeral)
  then show ?thesis by (simp add: pow2_numeral)
qed

lemma readme_binance_f64: "round_f64 46.31 = 6517553085735240 / 2 ^ 47"
proof -
  have "round_f64 (46.31) = real_of_int (6517553085735240) * pow2 (5 - 52)"
    by (rule round_f64_certificate) (simp_all add: pow2_numeral)
  then show ?thesis by (simp add: pow2_numeral)
qed

lemma readme_sub: "float64_sub (6517553085735240 / 2 ^ 47) (6448591716441129 / 2 ^ 47) = 8827055269646208 / 2 ^ 54"
proof -
  have "round_f64 (6517553085735240 / 2 ^ 47 - 6448591716441129 / 2 ^ 47) = real_of_int (8827055269646208) * pow2 (- 2 - 52)"
    by (rule round_f64_certificate) (simp_all add: pow2_numeral)
  then show ?thesis by (simp add: float64_sub_def pow2_numeral)
qed

lemma readme_quo: "float64_quo (8827055269646208 / 2 ^ 54) (6448591716441129 / 2 ^ 47) = 6164682859639429 / 2 ^ 59"
proof -
  have "round_f64 (8827055269646208 / 2 ^ 54 / (6448591716441129 / 2 ^ 47)) = real_of_int (6164682859639429) * pow2 (- 7 - 52)"
    by (rule round_f64_certificate) (simp_all add: pow2_numeral)
  then show ?thesis by (simp add: float64_quo_def pow2_numeral)
qed

lemma readme_mul1: "float64_mul (6164682859639429 / 2 ^ 59) 100 = 4816158484093304 / 2 ^ 52"
proof -
  have "round_f64 (6164682859639429 / 2 ^ 59 * 100) = real_of_int (4816158484093304) * pow2 (0 - 52)"
    by (rule round_f64_certificate) (simp_all add: pow2_numeral)
  then show ?thesis by (simp add: float64_mul_def pow2_numeral)
qed

lemma readme_mul2: "float64_mul (4816158484093304 / 2 ^ 52) 100 = 7525247631395788 / 2 ^ 46"
proof -
  have "round_f64 (4816158484093304 / 2 ^ 52 * 100) = real_of_int (7525247631395788) * pow2 (6 - 52)"
    by (rule round_f64_certificate) (simp_all add: pow2_numeral)
  then show ?thesis by (simp add: float64_mul_def pow2_numeral)
qed

lemma readme_int: "float64_to_int (7525247631395788 / 2 ^ 46) = 106"
  by (simp add: float64_to_int_def trunc_toward_zero_def int64_min_def int64_max_def)

lemma int_to_float64_106: "int_to_float64 106 = 106"
proof -
  have "round_f64 (real_of_int 106) = real_of_int (7459086882832384) * pow2 (6 - 52)"
    by (rule round_f64_certificate) (simp_all add: pow2_numeral)
  then show ?thesis by (simp add: int_to_float64_def pow2_numeral)
qed

lemma readme_quo100: "float64_quo 106 100 = 4773815605012726 / 2 ^ 52"
proof -
  have "round_f64 (106 / 100) = real_of_int (4773815605012726) * pow2 (0 - 52)"
    by (rule round_f64_certificate) (simp_all add: pow2_numeral)
  then show ?thesis by (simp add: float64_quo_def pow2_numeral)
qed

lemma f64_1_06: "round_f64 1.06 = 4773815605012726 / 2 ^ 52"
proof -
  have "round_f64 (1.06) = real_of_int (4773815605012726) * pow2 (0 - 52)"
    by (rule round_f64_certificate) (simp_all add: pow2_numeral)
  then show ?thesis by (simp add: pow2_numeral)
qed

lemma rounding_sub: "float64_sub 215 100 = 115"
proof -
  have "round_f64 (215 - 100) = real_of_int (8092405580431360) * pow2 (6 - 52)"
    by (rule round_f64_certificate) (simp_all add: pow2_numeral)
  then show ?thesis by (simp add: float64_sub_def pow2_numeral)
qed

lemma rounding_quo: "float64_quo 115 100 = 5179139571476070 / 2 ^ 52"
proof -
  have "round_f64 (115 / 100) = real_of_int (5179139571476070) * pow2 (0 - 52)"
    by (rule round_f64_certificate) (simp_all add: pow2_numeral)
  then show ?thesis by (simp add: float64_quo_def pow2_numeral)
qed

lemma rounding_mul1: "float64_mul (5179139571476070 / 2 ^ 52) 100 = 8092405580431359 / 2 ^ 46"
proof -
  have "round_f64 (5179139571476070 / 2 ^ 52 * 100) = real_of_int (8092405580431359) * pow2 (6 - 52)"
    by (rule round_f64_certificate) (simp_all add: pow2_numeral)
  then show ?thesis by (simp add: float64_mul_def pow2_numeral)
qed

lemma rounding_mul2: "float64_mul (8092405580431359 / 2 ^ 46) 100 = 6322191859711999 / 2 ^ 39"
proof -
  have "round_f64 (8092405580431359 / 2 ^ 46 * 100) = real_of_int (6322191859711999) * pow2 (13 - 52)"
    by (rule round_f64_certificate) (simp_all add: pow2_numeral)
  then show ?thesis by (simp add: float64_mul_def pow2_numeral)
qed

lemma rounding_int: "float64_to_int (6322191859711999 / 2 ^ 39) = 11499"
  by (simp add: float64_to_int_def trunc_toward_zero_def int64_min_def int64_max_def)

lemma int_to_float64_11499: "int_to_float64 11499 = 11499"
proof -
  have "round_f64 (real_of_int 11499) = real_of_int (6321642103898112) * pow2 (13 - 52)"
    by (rule round_f64_certificate) (simp_all add: pow2_numeral)
  then show ?thesis by (simp add: int_to_float64_def pow2_numeral)
qed

lemma rounding_quo100: "float64_quo 11499 100 = 8091701892989583 / 2 ^ 46"
proof -
  have "round_f64 (11499 / 100) = real_of_int (8091701892989583) * pow2 (6 - 52)"
    by (rule round_f64_certificate) (simp_all add: pow2_numeral)
  then show ?thesis by (simp add: float64_quo_def pow2_numeral)
qed

lemma huge_sub: "float64_sub (10 ^ 20) 1 = 10 ^ 20"
proof -
  have "round_f64 (10 ^ 20 - 1) = real_of_int (6103515625000000) * pow2 (66 - 52)"
    by (rule round_f64_certificate) (simp_all add: pow2_numeral)
  then show ?thesis by (simp add: float64_sub_def pow2_numeral)
qed

lemma huge_quo: "float64_quo (10 ^ 20) 1 = 10 ^ 20"
proof -
  have "round_f64 (10 ^ 20 / 1) = real_of_int (6103515625000000) * pow2 (66 - 52)"
    by (rule round_f64_certificate) (simp_all add: pow2_numeral)
  then show ?thesis by (simp add: float64_quo_def pow2_numeral)
qed

lemma huge_mul1: "float64_mul (10 ^ 20) 100 = 10 ^ 22"
proof -
  have "round_f64 (10 ^ 20 * 100) = real_of_int (4768371582031250) * pow2 (73 - 52)"
    by (rule round_f64_certificate) (simp_all add: pow2_numeral)
  then show ?thesis by (simp add: float64_mul_def pow2_numeral)
qed

lemma huge_mul2: "float64_mul (10 ^ 22) 100 = 7450580596923828 * 2 ^ 27"
proof -
  have "round_f64 (10 ^ 22 * 100) = real_of_int (7450580596923828) * pow2 (79 - 52)"
    by (rule round_f64_certificate) (simp_all add: pow2_numeral)
  then show ?thesis by (simp add: float64_mul_def pow2_numeral)
qed

lemma huge_int: "float64_to_int (7450580596923828 * 2 ^ 27) = - (2 ^ 63)"
  by (simp add: float64_to_int_def trunc_toward_zero_def int64_min_def int64_max_def)

lemma int_to_float64_int64_min: "int_to_float64 (- (2 ^ 63)) = - (2 ^ 63)"
proof -
  have "round_f64 (real_of_int (- (2 ^ 63))) = real_of_int (- 4503599627370496) * pow2 (63 - 52)"
    by (rule round_f64_certificate) (simp_all add: pow2_numeral)
  then show ?thesis by (simp add: int_to_float64_def pow2_numeral)
qed

lemma huge_quo100: "float64_quo (- (2 ^ 63)) 100 = - 92233720368547760"
proof -
  have "round_f64 (- (2 ^ 63) / 100) = real_of_int (- 5764607523034235) * pow2 (56 - 52)"
    by (rule round_f64_certificate) (simp_all add: pow2_numeral)
  then show ?thesis by (simp add: float64_quo_def pow2_numeral)
qed

section \<open>Properties of the store\<close>

lemma Breach_positive_bcv:
  "0 < bcv s \<Longrightarrow>
   Breach (GetRateData s) =
     float64_quo (int_to_float64 (float64_to_int (float64_mul (float64_mul
       (float64_quo (float64_sub (binance s) (bcv s)) (bcv s)) 100) 100))) 100"
  by (simp add: GetRateData_def GetRateData_div_def Let_def)

lemma Breach_rounding_store:
  "Breach (GetRateData rounding_store) = 8091701892989583 / 2 ^ 46"
proof -
  have a: "bcv rounding_store = 100" and b: "binance rounding_store = 215"
    by (simp_all add: rounding_store_def)
  have p: "0 < bcv rounding_store" by (simp add: a)
  show ?thesis
    using Breach_positive_bcv [OF p]
    unfolding a b rounding_sub rounding_quo rounding_mul1 rounding_mul2
      rounding_int int_to_float64_11499 rounding_quo100 .
qed

lemma Breach_readme_store:
  "Breach (GetRateData readme_store) = 4773815605012726 / 2 ^ 52"
proof -
  have a: "bcv readme_store = 6448591716441129 / 2 ^ 47"
    unfolding readme_store_def using readme_bcv_f64 by simp
  have b: "binance readme_store = 6517553085735240 / 2 ^ 47"
    unfolding readme_store_def using readme_binance_f64 by simp
  have p: "0 < bcv readme_store" by (simp add: a)
  show ?thesis
    using Breach_positive_bcv [OF p]
    unfolding a b readme_sub readme_quo readme_mul1 readme_mul2
      readme_int int_to_float64_106 readme_quo100 .
qed

lemma Breach_huge_store:
  "Breach (GetRateData huge_store) = - 92233720368547760"
proof -
  have a: "bcv huge_store = 1" and b: "binance huge_store = 10 ^ 20"
    by (simp_all add: huge_store_def)
  have p: "0 < bcv huge_store" by (simp add: a)
  show ?thesis
    using Breach_positive_bcv [OF p]
    unfolding a b huge_sub huge_quo huge_mul1 huge_mul2
      huge_int int_to_float64_int64_min huge_quo100 .
qed

text \<open>
  Claim C2. For a store with a positive BCV value the breach is to be the percentage
  \<open>((b - a) / a) * 100\<close> truncated to two decimal places. The code, evaluated at BCV 100
  and Binance 215: the percentage is 115 exactly, its truncation is 115.00, and
  \<open>GetRateData\<close> returns the \<^verbatim>\<open>float64\<close> nearest to 114.99, because the quotient 1.15 is
  rounded down before it is scaled and \<^verbatim>\<open>int\<close> then truncates 11499.999999999998. At
  the values of the README, 45.82 and 46.31, the result is the \<^verbatim>\<open>float64\<close> nearest to 1.06,
  as the claim says.
\<close>

theorem GetRateData_breach_float_rounding:
  "Breach (GetRateData rounding_store) = round_f64 114.99
   \<and> Breach (GetRateData rounding_store) < 114.995
   \<and> truncated_2dp (breach_formula (bcv rounding_store) (binance rounding_store)) = 115
   \<and> Breach (GetRateData readme_store) = round_f64 1.06
   \<and> truncated_2dp (breach_formula (bcv readme_store) (binance readme_store)) = 1.06"
proof -
  have r: "round_f64 114.99 = 8091701892989583 / 2 ^ 46"
    using rounding_quo100 by (simp add: float64_quo_def)
  have t: "truncated_2dp (breach_formula (bcv rounding_store) (binance rounding_store)) = 115"
    by (simp add: rounding_store_def truncated_2dp_def breach_formula_def)
  have a: "bcv readme_store = 6448591716441129 / 2 ^ 47"
    unfolding readme_store_def using readme_bcv_f64 by simp
  have b: "binance readme_store = 6517553085735240 / 2 ^ 47"
    unfolding readme_store_def using readme_binance_f64 by simp
  have u: "truncated_2dp (breach_formula (bcv readme_store) (binance readme_store)) = 1.06"
    unfolding a b by (simp add: truncated_2dp_def breach_formula_def)
  show ?thesis
    unfolding Breach_rounding_store Breach_readme_store r f64_1_06 t u by simp
qed

text \<open>
  Claim C3. When the BCV value of the store is zero, \<open>GetRateData\<close> returns breach 0
  whatever the Binance value, and the quotient of the breach formula is not evaluated:
  the result is the same for every way \<open>quo\<close> of computing that quotient.
\<close>

theorem GetRateData_breach_zero_bcv:
  "bcv s = 0 \<Longrightarrow> Breach (GetRateData s) = 0 \<and> GetRateData_div quo s = GetRateData s"
  by (simp add: GetRateData_def GetRateData_div_def Let_def float64_mul_def float64_quo_def
      round_f64_zero float64_to_int_zero int_to_float64_def)

theorem GetRateData_breach_zero_bcv_witness:
  "bcv (NewRateStore\<lparr>binance := 46.31\<rparr>) = 0
   \<and> Breach (GetRateData (NewRateStore\<lparr>binance := 46.31\<rparr>)) = 0
   \<and> GetRateData_div (\<lambda>x y. 1) (NewRateStore\<lparr>binance := 46.31\<rparr>)
       = GetRateData (NewRateStore\<lparr>binance := 46.31\<rparr>)"
proof -
  have z: "bcv (NewRateStore\<lparr>binance := 46.31\<rparr>) = 0"
    by (simp add: NewRateStore_def)
  show ?thesis
    using GetRateData_breach_zero_bcv [OF z, of "\<lambda>x y. 1"] z by simp
qed

text \<open>
  Claim C6. The \<open>UpdatedAt\<close> field returned by \<open>GetRateData\<close> is the later of the two
  timestamps of the store.
\<close>

theorem GetRateData_updatedAt_max:
  "UpdatedAt (GetRateData s) = max (bcvTime s) (binTime s)"
  by (simp add: GetRateData_def GetRateData_div_def Let_def max_def)

text \<open>
  Claim C10. When the BCV value of the store is strictly negative, \<open>GetRateData\<close>
  returns breach 0: the guard is \<open>bcv > 0\<close>, so the formula is applied to strictly
  positive BCV values only and the result does not depend on the quotient.
\<close>

theorem GetRateData_breach_negative_bcv:
  "bcv s < 0 \<Longrightarrow> Breach (GetRateData s) = 0 \<and> GetRateData_div quo s = GetRateData s"
  by (simp add: GetRateData_def GetRateData_div_def Let_def float64_mul_def float64_quo_def
      round_f64_zero float64_to_int_zero int_to_float64_def)

theorem GetRateData_breach_negative_bcv_witness:
  "bcv negative_store < 0 \<and> Breach (GetRateData negative_store) = 0
   \<and> GetRateData_div (\<lambda>x y. 1) negative_store = GetRateData negative_store
   \<and> breach_formula (bcv negative_store) (binance negative_store) = - 200"
proof -
  have n: "bcv negative_store < 0"
    by (simp add: negative_store_def)
  have f: "breach_formula (bcv negative_store) (binance negative_store) = - 200"
    by (simp add: negative_store_def breach_formula_def)
  show ?thesis
    using GetRateData_breach_negative_bcv [OF n, of "\<lambda>x y. 1"] n f by simp
qed

section \<open>Properties of the calendar computation\<close>

lemma localSeconds_next_day:
  "localSeconds off (Add t (24 * Hour_ns)) = localSeconds off t + 86400"
  by (simp add: localSeconds_def Add_def Hour_ns_def Minute_ns_def Second_ns_def)

lemma civilDay_next_day: "civilDay off (Add t (24 * Hour_ns)) = civilDay off t + 1"
  by (simp add: civilDay_def localSeconds_next_day)

lemma skipWeekend_weekday:
  "Weekday loc_VET (skipWeekend t) \<noteq> Saturday \<and> Weekday loc_VET (skipWeekend t) \<noteq> Sunday"
proof (induction t rule: skipWeekend.induct)
  case (1 t)
  show ?case
  proof (cases "Weekday loc_VET t = Saturday \<or> Weekday loc_VET t = Sunday")
    case True
    with 1 show ?thesis by (subst (1 2) skipWeekend.simps) simp
  next
    case False
    then show ?thesis by (subst (1 2) skipWeekend.simps) simp
  qed
qed

lemma skipWeekend_ge: "t \<le> skipWeekend t"
proof (induction t rule: skipWeekend.induct)
  case (1 t)
  show ?case
  proof (cases "Weekday loc_VET t = Saturday \<or> Weekday loc_VET t = Sunday")
    case True
    with 1 have "Add t (24 * Hour_ns) \<le> skipWeekend (Add t (24 * Hour_ns))" by simp
    moreover have "skipWeekend t = skipWeekend (Add t (24 * Hour_ns))"
      using True by (subst skipWeekend.simps) simp
    ultimately show ?thesis
      by (simp add: Add_def Hour_ns_def Minute_ns_def Second_ns_def)
  next
    case False
    then show ?thesis by (subst skipWeekend.simps) simp
  qed
qed

lemma skipWeekend_id_iff:
  "(skipWeekend t = t) = (Weekday loc_VET t \<noteq> Saturday \<and> Weekday loc_VET t \<noteq> Sunday)"
proof (cases "Weekday loc_VET t = Saturday \<or> Weekday loc_VET t = Sunday")
  case True
  have "skipWeekend t = skipWeekend (Add t (24 * Hour_ns))"
    using True by (subst skipWeekend.simps) simp
  moreover have "Add t (24 * Hour_ns) \<le> skipWeekend (Add t (24 * Hour_ns))"
    by (rule skipWeekend_ge)
  ultimately have "t < skipWeekend t"
    by (simp add: Add_def Hour_ns_def Minute_ns_def Second_ns_def)
  with True show ?thesis by auto
next
  case False
  then show ?thesis by (subst skipWeekend.simps) simp
qed

lemma skipWeekend_time_of_day:
  "localSeconds loc_VET (skipWeekend t) mod 86400 = localSeconds loc_VET t mod 86400"
proof (induction t rule: skipWeekend.induct)
  case (1 t)
  show ?case
  proof (cases "Weekday loc_VET t = Saturday \<or> Weekday loc_VET t = Sunday")
    case True
    have e: "skipWeekend t = skipWeekend (Add t (24 * Hour_ns))"
      using True by (subst skipWeekend.simps) simp
    from 1 True show ?thesis
      unfolding e by (simp add: localSeconds_next_day)
  next
    case False
    then show ?thesis by (subst skipWeekend.simps) simp
  qed
qed

lemma localSeconds_DateOnDayOf:
  "localSeconds off (DateOnDayOf off t h m 0 0) = civilDay off t * 86400 + h * 3600 + m * 60"
  by (simp add: localSeconds_def DateOnDayOf_def Second_ns_def)

lemma weekday_cases:
  "w \<noteq> Saturday \<Longrightarrow> w \<noteq> Sunday \<Longrightarrow> w \<in> {Monday, Tuesday, Wednesday, Thursday, Friday}"
  by (cases w) simp_all

lemma nextBCVRunTime_unfold:
  "nextBCVRunTime now =
     skipWeekend (if now > DateOnDayOf loc_VET now 11 30 0 0
                  then DateOnDayOf loc_VET now 11 30 0 0 + 24 * Hour_ns
                  else DateOnDayOf loc_VET now 11 30 0 0)"
  by (simp add: nextBCVRunTime_def Let_def After_def Add_def)

lemma nextBCVRunTime_localSeconds:
  "localSeconds loc_VET (nextBCVRunTime now) mod 86400 = 41400"
proof -
  let ?n = "DateOnDayOf loc_VET now 11 30 0 0"
  have a: "localSeconds loc_VET ?n mod 86400 = 41400"
    by (simp add: localSeconds_DateOnDayOf)
  have b: "localSeconds loc_VET (?n + 24 * Hour_ns) mod 86400 = 41400"
    using localSeconds_next_day [of loc_VET ?n] a by (simp add: Add_def)
  show ?thesis
    unfolding nextBCVRunTime_unfold using a b
    by (simp add: skipWeekend_time_of_day)
qed

lemma now_before_next_day:
  "now < DateOnDayOf loc_VET now 11 30 0 0 + 24 * Hour_ns"
proof -
  define q where "q = now div 1000000000"
  define d where "d = (q + loc_VET) div 86400"
  have "(q + loc_VET) mod 86400 < 86400" by simp
  moreover have "d * 86400 + (q + loc_VET) mod 86400 = q + loc_VET"
    unfolding d_def by (rule div_mult_mod_eq)
  ultimately have a: "q + 1 \<le> d * 86400 + 86400 - loc_VET" by linarith
  have "now mod 1000000000 < 1000000000" by simp
  moreover have "q * 1000000000 + now mod 1000000000 = now"
    unfolding q_def by (rule div_mult_mod_eq)
  ultimately have b: "now < (q + 1) * 1000000000" by (simp add: algebra_simps)
  from a have "(q + 1) * 1000000000 \<le> (d * 86400 + 86400 - loc_VET) * 1000000000"
    by (rule mult_right_mono) simp
  with b have "now < (d * 86400 + 86400 - loc_VET) * 1000000000" by linarith
  also have "\<dots> \<le> (d * 86400 + 11 * 3600 + 30 * 60 + 0 - loc_VET) * 1000000000
      + 0 + 24 * (60 * (60 * 1000000000))"
    by (simp add: algebra_simps)
  finally show ?thesis
    unfolding DateOnDayOf_def civilDay_def localSeconds_def Hour_ns_def Minute_ns_def
      Second_ns_def d_def q_def by simp
qed


text \<open>
  Claim C4. For every reading \<open>now\<close> of the clock, the instant computed by
  \<open>nextBCVRunTime\<close> has hour 11 and minute 30 (and second 0) in the zone UTC-4 and falls
  on a day from Monday to Friday. The result is a function of \<open>now\<close> alone, so every
  evaluation for the same \<open>now\<close> gives the same instant.
\<close>

theorem nextBCVRunTime_target_weekday:
  "Hour loc_VET (nextBCVRunTime now) = 11
   \<and> Minute loc_VET (nextBCVRunTime now) = 30
   \<and> Second loc_VET (nextBCVRunTime now) = 0
   \<and> Weekday loc_VET (nextBCVRunTime now) \<in> {Monday, Tuesday, Wednesday, Thursday, Friday}"
proof -
  let ?s = "localSeconds loc_VET (nextBCVRunTime now)"
  have s: "?s mod 86400 = 41400" by (rule nextBCVRunTime_localSeconds)
  have "?s mod 3600 = (?s mod 86400) mod 3600"
    by (simp add: mod_mod_cancel)
  then have m: "?s mod 3600 = 1800" using s by simp
  have "?s mod 60 = (?s mod 86400) mod 60"
    by (simp add: mod_mod_cancel)
  then have c: "?s mod 60 = 0" using s by simp
  have w: "Weekday loc_VET (nextBCVRunTime now) \<in> {Monday, Tuesday, Wednesday, Thursday, Friday}"
    unfolding nextBCVRunTime_unfold using skipWeekend_weekday by (intro weekday_cases) simp_all
  show ?thesis using s m c w by (simp add: Hour_def Minute_def Second_def)
qed

theorem nextBCVRunTime_target_weekday_witness:
  "Hour loc_VET (nextBCVRunTime friday_noon) = 11
   \<and> Minute loc_VET (nextBCVRunTime friday_noon) = 30
   \<and> Second loc_VET (nextBCVRunTime friday_noon) = 0
   \<and> Weekday loc_VET (nextBCVRunTime friday_noon)
       \<in> {Monday, Tuesday, Wednesday, Thursday, Friday}
   \<and> Weekday loc_VET friday_noon = Friday \<and> Hour loc_VET friday_noon = 12"
proof -
  have "Weekday loc_VET friday_noon = Friday \<and> Hour loc_VET friday_noon = 12"
    by (simp add: friday_noon_def Weekday_def weekdayOfIndex_def Hour_def civilDay_def
        localSeconds_def loc_VET_def Second_ns_def)
  then show ?thesis
    using nextBCVRunTime_target_weekday [of friday_noon] by simp
qed

text \<open>
  Claim C5. For every reading \<open>now\<close> of the clock, the instant computed by
  \<open>nextBCVRunTime\<close> is not earlier than \<open>now\<close>, and it is \<open>now\<close> itself exactly when
  \<open>now\<close> is 11:30:00 sharp, in the zone UTC-4, of a day from Monday to Friday; in every
  other case it is strictly later.
\<close>

theorem nextBCVRunTime_not_before_now:
  "now \<le> nextBCVRunTime now
   \<and> (nextBCVRunTime now = now) =
       (now = DateOnDayOf loc_VET now 11 30 0 0
        \<and> Weekday loc_VET now \<noteq> Saturday \<and> Weekday loc_VET now \<noteq> Sunday)"
proof (cases "now > DateOnDayOf loc_VET now 11 30 0 0")
  case True
  let ?n = "DateOnDayOf loc_VET now 11 30 0 0 + 24 * Hour_ns"
  have "now < ?n" by (rule now_before_next_day)
  also have "?n \<le> skipWeekend ?n" by (rule skipWeekend_ge)
  finally have "now < nextBCVRunTime now"
    unfolding nextBCVRunTime_unfold using True by simp
  with True show ?thesis by auto
next
  case False
  let ?n = "DateOnDayOf loc_VET now 11 30 0 0"
  have e: "nextBCVRunTime now = skipWeekend ?n"
    unfolding nextBCVRunTime_unfold using False by simp
  have g: "?n \<le> skipWeekend ?n" by (rule skipWeekend_ge)
  show ?thesis
  proof (cases "now = ?n")
    case True
    then show ?thesis
      using e g skipWeekend_id_iff [of ?n] by auto
  next
    case ne: False
    with False have "now < ?n" by simp
    with g e ne show ?thesis by auto
  qed
qed

theorem nextBCVRunTime_not_before_now_witness:
  "friday_noon \<le> nextBCVRunTime friday_noon
   \<and> (nextBCVRunTime friday_noon = friday_noon) =
       (friday_noon = DateOnDayOf loc_VET friday_noon 11 30 0 0
        \<and> Weekday loc_VET friday_noon \<noteq> Saturday \<and> Weekday loc_VET friday_noon \<noteq> Sunday)
   \<and> friday_noon \<noteq> DateOnDayOf loc_VET friday_noon 11 30 0 0
   \<and> nextBCVRunTime friday_noon \<noteq> friday_noon"
proof -
  have "friday_noon \<noteq> DateOnDayOf loc_VET friday_noon 11 30 0 0"
    by (simp add: friday_noon_def DateOnDayOf_def civilDay_def localSeconds_def loc_VET_def
        Second_ns_def)
  then show ?thesis
    using nextBCVRunTime_not_before_now [of friday_noon] by simp
qed

text \<open>
  The claim as stated, strictly later also at 11:30:00 sharp, fails there: at 11:30:00 of
  Monday 1970-01-05 in UTC-4 the computed instant is \<open>now\<close>, since \<open>now.After(next)\<close> is
  false when the two are equal.
\<close>

theorem nextBCVRunTime_at_target_counterexample:
  "\<not> monday_1130 < nextBCVRunTime monday_1130
   \<and> Weekday loc_VET monday_1130 = Monday
   \<and> Hour loc_VET monday_1130 = 11 \<and> Minute loc_VET monday_1130 = 30
   \<and> Second loc_VET monday_1130 = 0 \<and> monday_1130 mod Second_ns = 0"
proof -
  have "nextBCVRunTime monday_1130 = monday_1130"
    by code_simp
  then show ?thesis
    by (simp add: monday_1130_def civilDay_def localSeconds_def loc_VET_def Second_ns_def
        Weekday_def weekdayOfIndex_def Hour_def Minute_def Second_def)
qed

section \<open>Properties of the service\<close>

lemma fetches_simps:
  "fetches (xs @ ys) = fetches xs @ fetches ys"
  "fetches [] = []"
  "fetches (LogLine m # xs) = fetches xs"
  "fetches (BCVScraperFetch # xs) = BCVScraperFetch # fetches xs"
  "fetches (BinanceFetcherFetch # xs) = BinanceFetcherFetch # fetches xs"
  by (simp_all add: fetches_def)

lemma log_Print_simps:
  "store (log_Print m st) = store st"
  "bcvFetches (log_Print m st) = bcvFetches st"
  "binanceFetches (log_Print m st) = binanceFetches st"
  "clockReads (log_Print m st) = clockReads st"
  "trace (log_Print m st) = trace st @ [LogLine m]"
  by (simp_all add: log_Print_def)

lemma SetBCV_simps:
  "bcvFetches (SetBCV w r st) = bcvFetches st"
  "binanceFetches (SetBCV w r st) = binanceFetches st"
  "clockReads (SetBCV w r st) = Suc (clockReads st)"
  "trace (SetBCV w r st) = trace st"
  "store (SetBCV w r st) = (store st)\<lparr>bcv := r, bcvTime := timeNow w (clockReads st)\<rparr>"
  by (simp_all add: SetBCV_def time_Now_def)

lemma SetBinance_simps:
  "bcvFetches (SetBinance w r st) = bcvFetches st"
  "binanceFetches (SetBinance w r st) = binanceFetches st"
  "clockReads (SetBinance w r st) = Suc (clockReads st)"
  "trace (SetBinance w r st) = trace st"
  "store (SetBinance w r st) = (store st)\<lparr>binance := r, binTime := timeNow w (clockReads st)\<rparr>"
  by (simp_all add: SetBinance_def time_Now_def)

lemma FetchBCV_Inl:
  "bcvScraper w (bcvFetches st) = Inl e \<Longrightarrow>
   FetchBCV w st =
     (Some e, st\<lparr>bcvFetches := Suc (bcvFetches st),
                   trace := trace st @ [BCVScraperFetch, LogLine (BCVFetchErrorKeepingPrevious e)]\<rparr>)"
  by (simp add: FetchBCV_def bcvScraper_Fetch_def log_Print_def)

lemma FetchBinance_Inl:
  "binanceFetcher w (binanceFetches st) = Inl e \<Longrightarrow>
   FetchBinance w st =
     (Some e, st\<lparr>binanceFetches := Suc (binanceFetches st),
                   trace := trace st @ [BinanceFetcherFetch,
                                        LogLine (BinanceFetchErrorKeepingPrevious e)]\<rparr>)"
  by (simp add: FetchBinance_def binanceFetcher_Fetch_def log_Print_def)

lemma FetchBCV_effects:
  "fetches (trace (snd (FetchBCV w st))) = fetches (trace st) @ [BCVScraperFetch]"
  "bcvFetches (snd (FetchBCV w st)) = Suc (bcvFetches st)"
  "binanceFetches (snd (FetchBCV w st)) = binanceFetches st"
proof -
  show "fetches (trace (snd (FetchBCV w st))) = fetches (trace st) @ [BCVScraperFetch]"
    by (cases "bcvScraper w (bcvFetches st)")
      (simp_all add: FetchBCV_def bcvScraper_Fetch_def log_Print_simps SetBCV_simps
        fetches_simps)
  show "bcvFetches (snd (FetchBCV w st)) = Suc (bcvFetches st)"
    by (cases "bcvScraper w (bcvFetches st)")
      (simp_all add: FetchBCV_def bcvScraper_Fetch_def log_Print_simps SetBCV_simps)
  show "binanceFetches (snd (FetchBCV w st)) = binanceFetches st"
    by (cases "bcvScraper w (bcvFetches st)")
      (simp_all add: FetchBCV_def bcvScraper_Fetch_def log_Print_simps SetBCV_simps)
qed

lemma FetchBinance_effects:
  "fetches (trace (snd (FetchBinance w st))) = fetches (trace st) @ [BinanceFetcherFetch]"
  "bcvFetches (snd (FetchBinance w st)) = bcvFetches st"
  "binanceFetches (snd (FetchBinance w st)) = Suc (binanceFetches st)"
proof -
  show "fetches (trace (snd (FetchBinance w st)))
      = fetches (trace st) @ [BinanceFetcherFetch]"
    by (cases "binanceFetcher w (binanceFetches st)")
      (simp_all add: FetchBinance_def binanceFetcher_Fetch_def log_Print_simps
        SetBinance_simps fetches_simps)
  show "bcvFetches (snd (FetchBinance w st)) = bcvFetches st"
    by (cases "binanceFetcher w (binanceFetches st)")
      (simp_all add: FetchBinance_def binanceFetcher_Fetch_def log_Print_simps
        SetBinance_simps)
  show "binanceFetches (snd (FetchBinance w st)) = Suc (binanceFetches st)"
    by (cases "binanceFetcher w (binanceFetches st)")
      (simp_all add: FetchBinance_def binanceFetcher_Fetch_def log_Print_simps
        SetBinance_simps)
qed

text \<open>
  Claim C1. When the scraper of a source fails with an error, the refresh of that source
  (\<open>FetchBCV\<close>, \<open>FetchBinance\<close>) returns that same error and leaves the store as it
  was: the values and the timestamps of both sources.
\<close>

theorem Fetch_failure_keeps_store:
  "(bcvScraper w (bcvFetches st) = Inl e \<longrightarrow>
      fst (FetchBCV w st) = Some e \<and> store (snd (FetchBCV w st)) = store st)
   \<and> (binanceFetcher w (binanceFetches st) = Inl e' \<longrightarrow>
      fst (FetchBinance w st) = Some e' \<and> store (snd (FetchBinance w st)) = store st)"
  by (simp add: FetchBCV_Inl FetchBinance_Inl)

theorem Fetch_failure_keeps_store_witness:
  "bcvScraper failing_world (bcvFetches running_service)
     = Inl (FetchError ''BCV: USD rate not found on page'')
   \<and> fst (FetchBCV failing_world running_service)
     = Some (FetchError ''BCV: USD rate not found on page'')
   \<and> store (snd (FetchBCV failing_world running_service)) = readme_store
   \<and> binanceFetcher failing_world (binanceFetches running_service)
     = Inl (FetchError ''no valid prices found'')
   \<and> fst (FetchBinance failing_world running_service)
     = Some (FetchError ''no valid prices found'')
   \<and> store (snd (FetchBinance failing_world running_service)) = readme_store"
proof -
  have a: "bcvScraper failing_world (bcvFetches running_service)
     = Inl (FetchError ''BCV: USD rate not found on page'')"
    by (simp add: failing_world_def)
  have b: "binanceFetcher failing_world (binanceFetches running_service)
     = Inl (FetchError ''no valid prices found'')"
    by (simp add: failing_world_def)
  have s: "store running_service = readme_store"
    by (simp add: running_service_def)
  show ?thesis
    using Fetch_failure_keeps_store [of failing_world running_service
        "FetchError ''BCV: USD rate not found on page''"
        "FetchError ''no valid prices found''"] a b s
    by simp
qed

text \<open>
  Claim C7. \<open>Initialize\<close> calls the Binance fetcher first and the BCV scraper second,
  each exactly once, whatever the outcome of either call, and runs to its last statement,
  the log line that reports completion; it returns no error (it has no result).
\<close>

theorem Initialize_fetches_both_in_order:
  "fetches (trace (Initialize w st)) = fetches (trace st) @ [BinanceFetcherFetch, BCVScraperFetch]
   \<and> binanceFetches (Initialize w st) = Suc (binanceFetches st)
   \<and> bcvFetches (Initialize w st) = Suc (bcvFetches st)
   \<and> last (trace (Initialize w st)) = LogLine InitializationComplete"
proof -
  obtain e1 s2 where f1: "FetchBinance w (log_Print InitializingRateData st) = (e1, s2)"
    by (cases "FetchBinance w (log_Print InitializingRateData st)")
  define s3 where "s3 = (case e1 of Some e \<Rightarrow> log_Print (InitialBinanceFetchFailed e) s2
                 | None \<Rightarrow> s2)"
  obtain e2 s4 where f2: "FetchBCV w s3 = (e2, s4)"
    by (cases "FetchBCV w s3")
  define s5 where "s5 = (case e2 of Some e \<Rightarrow> log_Print (InitialBCVFetchFailed e) s4
                 | None \<Rightarrow> s4)"
  have I: "Initialize w st = log_Print InitializationComplete s5"
    by (simp only: Initialize_def Let_def f1 prod.case s3_def [symmetric] f2
        s5_def [symmetric])
  have p2: "fetches (trace s2) = fetches (trace st) @ [BinanceFetcherFetch]"
      "binanceFetches s2 = Suc (binanceFetches st)" "bcvFetches s2 = bcvFetches st"
    using FetchBinance_effects [of w "log_Print InitializingRateData st"]
    by (simp_all add: f1 log_Print_simps fetches_simps)
  have p3: "fetches (trace s3) = fetches (trace s2)"
      "binanceFetches s3 = binanceFetches s2" "bcvFetches s3 = bcvFetches s2"
    by (simp_all add: s3_def log_Print_simps fetches_simps split: option.splits)
  have p4: "fetches (trace s4) = fetches (trace s3) @ [BCVScraperFetch]"
      "binanceFetches s4 = binanceFetches s3" "bcvFetches s4 = Suc (bcvFetches s3)"
    using FetchBCV_effects [of w s3] by (simp_all add: f2)
  have p5: "fetches (trace s5) = fetches (trace s4)"
      "binanceFetches s5 = binanceFetches s4" "bcvFetches s5 = bcvFetches s4"
    by (simp_all add: s5_def log_Print_simps fetches_simps split: option.splits)
  show ?thesis
    unfolding I by (simp add: log_Print_simps fetches_simps p2 p3 p4 p5)
qed

theorem Initialize_fetches_both_in_order_witness:
  "binanceFetcher failing_world 0 = Inl (FetchError ''no valid prices found'')
   \<and> bcvScraper failing_world 0 = Inl (FetchError ''BCV: USD rate not found on page'')
   \<and> fetches (trace (Initialize failing_world NewService))
       = [BinanceFetcherFetch, BCVScraperFetch]
   \<and> binanceFetches (Initialize failing_world NewService) = 1
   \<and> bcvFetches (Initialize failing_world NewService) = 1
   \<and> last (trace (Initialize failing_world NewService)) = LogLine InitializationComplete"
proof -
  have o: "binanceFetcher failing_world 0 = Inl (FetchError ''no valid prices found'')"
      "bcvScraper failing_world 0 = Inl (FetchError ''BCV: USD rate not found on page'')"
    by (simp_all add: failing_world_def)
  have n: "fetches (trace NewService) = []" "binanceFetches NewService = 0"
      "bcvFetches NewService = 0"
    by (simp_all add: NewService_def fetches_simps)
  show ?thesis
    using Initialize_fetches_both_in_order [of failing_world NewService] o n by simp
qed

section \<open>Properties of the calendar job\<close>

lemma iteration_StopClosed:
  "bcvDailyJob_iteration w StopClosed st =
     (False, st\<lparr>clockReads := Suc (Suc (clockReads st)),
                  trace := trace st @
                    [LogLine (NextBCVScrapeScheduled (nextBCVRunTime (timeNow w (clockReads st)))
                       (Sub (nextBCVRunTime (timeNow w (clockReads st)))
                            (timeNow w (Suc (clockReads st))))),
                     LogLine BCVJobStopped]\<rparr>)"
  by (simp add: bcvDailyJob_iteration_def time_Now_def log_Print_def Let_def)

lemma iteration_weekend:
  assumes "Weekday_Local w (timeNow w (Suc (Suc (clockReads st)))) = Saturday
           \<or> Weekday_Local w (timeNow w (Suc (Suc (clockReads st)))) = Sunday"
  shows "bcvDailyJob_iteration w TimerFired st =
     (True, st\<lparr>clockReads := Suc (Suc (Suc (clockReads st))),
                 trace := trace st @
                    [LogLine (NextBCVScrapeScheduled (nextBCVRunTime (timeNow w (clockReads st)))
                       (Sub (nextBCVRunTime (timeNow w (clockReads st)))
                            (timeNow w (Suc (clockReads st))))),
                     LogLine SkippingBCVScrapeWeekend]\<rparr>)"
  using assms
  by (auto simp add: bcvDailyJob_iteration_def isWeekday_def time_Now_def log_Print_def Let_def)

lemma iteration_weekday:
  assumes "Weekday_Local w (timeNow w (Suc (Suc (clockReads st)))) \<noteq> Saturday"
    and "Weekday_Local w (timeNow w (Suc (Suc (clockReads st)))) \<noteq> Sunday"
  shows "bcvDailyJob_iteration w TimerFired st =
     (case FetchBCV w
        (st\<lparr>clockReads := Suc (Suc (Suc (clockReads st))),
            trace := trace st @
              [LogLine (NextBCVScrapeScheduled (nextBCVRunTime (timeNow w (clockReads st)))
                 (Sub (nextBCVRunTime (timeNow w (clockReads st)))
                      (timeNow w (Suc (clockReads st))))),
               LogLine RunningBCVDailyScrape]\<rparr>) of
        (err, st6) \<Rightarrow>
          (True, (case err of Some e \<Rightarrow> log_Print (BCVDailyScrapeFailed e) st6
                  | None \<Rightarrow> st6)))"
  using assms
  by (simp add: bcvDailyJob_iteration_def isWeekday_def time_Now_def log_Print_def Let_def)

lemma loop_weekend_clock_never_fetches:
  assumes "\<And>k. Weekday_Local w (timeNow w k) = Saturday
               \<or> Weekday_Local w (timeNow w k) = Sunday"
  shows "fetches (trace (bcvDailyJob_loop w sels st)) = fetches (trace st)
         \<and> store (bcvDailyJob_loop w sels st) = store st"
proof (induction sels arbitrary: st)
  case Nil
  show ?case by simp
next
  case (Cons sel sels)
  show ?case
  proof (cases sel)
    case StopClosed
    then show ?thesis
      by (simp add: iteration_StopClosed fetches_simps)
  next
    case TimerFired
    then show ?thesis
      using Cons.IH iteration_weekend [OF assms, of st]
      by (simp add: fetches_simps)
  qed
qed

lemma bcvDailyJob_weekend_clock_never_fetches:
  assumes "\<And>k. Weekday_Local w (timeNow w k) = Saturday
               \<or> Weekday_Local w (timeNow w k) = Sunday"
  shows "fetches (trace (bcvDailyJob w sels st)) = fetches (trace st)
         \<and> store (bcvDailyJob w sels st) = store st"
  using loop_weekend_clock_never_fetches [OF assms, of sels "log_Print BCVDailyJobStarted st"]
  by (simp add: bcvDailyJob_def log_Print_simps fetches_simps)

text \<open>
  In an iteration whose \<^verbatim>\<open>select\<close> takes the timer case, the BCV scraper is called
  exactly when the day of the clock reading made at wake-up is not Saturday or Sunday in
  the zone \<^verbatim>\<open>time.Local\<close> of the host, which is the zone \<^verbatim>\<open>isWeekday\<close> reads the day in.
\<close>

lemma bcvDailyJob_iteration_gate_in_host_zone:
  assumes "bcvDailyJob_iteration w TimerFired st = (continue, st')"
    and "wake = timeNow w (Suc (Suc (clockReads st)))"
  shows "continue
    \<and> fetches (trace st') = fetches (trace st) @
         (if Weekday_Local w wake = Saturday \<or> Weekday_Local w wake = Sunday
          then [] else [BCVScraperFetch])
    \<and> ((Weekday_Local w wake = Saturday \<or> Weekday_Local w wake = Sunday) \<longrightarrow>
         store st' = store st \<and> bcvFetches st' = bcvFetches st
         \<and> last (trace st') = LogLine SkippingBCVScrapeWeekend)"
proof (cases "Weekday_Local w wake = Saturday \<or> Weekday_Local w wake = Sunday")
  case True
  then have "bcvDailyJob_iteration w TimerFired st =
     (True, st\<lparr>clockReads := Suc (Suc (Suc (clockReads st))),
                 trace := trace st @
                    [LogLine (NextBCVScrapeScheduled (nextBCVRunTime (timeNow w (clockReads st)))
                       (Sub (nextBCVRunTime (timeNow w (clockReads st)))
                            (timeNow w (Suc (clockReads st))))),
                     LogLine SkippingBCVScrapeWeekend]\<rparr>)"
    unfolding assms(2) by (rule iteration_weekend)
  with assms(1) True show ?thesis
    by (auto simp add: fetches_simps)
next
  case False
  let ?st5 = "st\<lparr>clockReads := Suc (Suc (Suc (clockReads st))),
            trace := trace st @
              [LogLine (NextBCVScrapeScheduled (nextBCVRunTime (timeNow w (clockReads st)))
                 (Sub (nextBCVRunTime (timeNow w (clockReads st)))
                      (timeNow w (Suc (clockReads st))))),
               LogLine RunningBCVDailyScrape]\<rparr>"
  obtain err st6 where f: "FetchBCV w ?st5 = (err, st6)"
    by (cases "FetchBCV w ?st5")
  from False have "bcvDailyJob_iteration w TimerFired st =
      (True, (case err of Some e \<Rightarrow> log_Print (BCVDailyScrapeFailed e) st6 | None \<Rightarrow> st6))"
    unfolding assms(2) by (simp add: iteration_weekday f)
  with assms(1) have c: "continue"
    and s: "st' = (case err of Some e \<Rightarrow> log_Print (BCVDailyScrapeFailed e) st6 | None \<Rightarrow> st6)"
    by simp_all
  have "fetches (trace st6) = fetches (trace ?st5) @ [BCVScraperFetch]"
    using FetchBCV_effects(1) [of w ?st5] by (simp add: f)
  then have "fetches (trace st') = fetches (trace st) @ [BCVScraperFetch]"
    unfolding s by (simp add: fetches_simps log_Print_simps split: option.splits)
  with c False show ?thesis by simp
qed

text \<open>
  Claim C8. After the suspension the BCV refresh is to run only if the wake-up day is a
  weekday, so that the calendar job never fetches on a Saturday or Sunday. The calendar of
  the job is the zone UTC-4, in which \<^verbatim>\<open>nextBCVRunTime\<close> computes the target, while
  \<^verbatim>\<open>isWeekday\<close> reads the day of \<^verbatim>\<open>time.Now()\<close> in the zone of the host. The code,
  evaluated in \<open>drift_world\<close>: the host zone is UTC and the timer fires at 21:00 of Sunday
  in UTC-4, which is Monday in UTC; the iteration calls the BCV scraper and stores its
  rate.
\<close>

theorem bcvDailyJob_iteration_fetches_on_VET_Sunday:
  "Weekday loc_VET (timeNow drift_world 2) = Sunday
   \<and> Hour loc_VET (timeNow drift_world 2) = 21
   \<and> Weekday_Local drift_world (timeNow drift_world 2) = Monday
   \<and> fst (bcvDailyJob_iteration drift_world TimerFired NewService)
   \<and> fetches (trace (snd (bcvDailyJob_iteration drift_world TimerFired NewService)))
       = [BCVScraperFetch]
   \<and> bcvFetches (snd (bcvDailyJob_iteration drift_world TimerFired NewService)) = 1
   \<and> bcv (store (snd (bcvDailyJob_iteration drift_world TimerFired NewService))) = 100"
proof -
  have t: "timeNow drift_world (Suc (Suc (clockReads NewService))) = 349200 * Second_ns"
      "timeNow drift_world 2 = 349200 * Second_ns"
    by (simp_all add: drift_world_def NewService_def)
  have v: "Weekday loc_VET (349200 * Second_ns) = Sunday"
      "Hour loc_VET (349200 * Second_ns) = 21"
    by (simp_all add: Weekday_def weekdayOfIndex_def Hour_def civilDay_def localSeconds_def
        loc_VET_def Second_ns_def)
  have l: "Weekday_Local drift_world (349200 * Second_ns) = Monday"
    by (simp add: Weekday_Local_def drift_world_def Weekday_def weekdayOfIndex_def
        civilDay_def localSeconds_def Second_ns_def)
  have s: "bcvScraper drift_world 0 = Inr 100"
    by (simp add: drift_world_def)
  have i: "bcvDailyJob_iteration drift_world TimerFired NewService =
     (case FetchBCV drift_world
        (NewService\<lparr>clockReads := Suc (Suc (Suc (clockReads NewService))),
            trace := trace NewService @
              [LogLine (NextBCVScrapeScheduled
                 (nextBCVRunTime (timeNow drift_world (clockReads NewService)))
                 (Sub (nextBCVRunTime (timeNow drift_world (clockReads NewService)))
                      (timeNow drift_world (Suc (clockReads NewService))))),
               LogLine RunningBCVDailyScrape]\<rparr>) of
        (err, st6) \<Rightarrow>
          (True, (case err of Some e \<Rightarrow> log_Print (BCVDailyScrapeFailed e) st6
                  | None \<Rightarrow> st6)))"
    by (rule iteration_weekday) (simp_all add: t l)
  show ?thesis
    unfolding i t(2) v l
    by (simp add: FetchBCV_def bcvScraper_Fetch_def SetBCV_def time_Now_def log_Print_def
        NewService_def s fetches_simps)
qed

end
